theory Spec2Isabelle
  imports Main "HOL-Library.Word"
begin

section \<open>The polled wall-clock controller (simulation.cpp)\<close>

subsection \<open>Pins, durations and states\<close>

text \<open>
  The four lamp pins. A pin level is a boolean, \<open>HIGH\<close> being \<open>True\<close>; the board's
  output pins are a function from pin number to level.
\<close>

definition LIGHT_NS_G_PIN :: int where "LIGHT_NS_G_PIN = 8"
definition LIGHT_NS_Y_PIN :: int where "LIGHT_NS_Y_PIN = 9"
definition LIGHT_EW_G_PIN :: int where "LIGHT_EW_G_PIN = 10"
definition LIGHT_EW_Y_PIN :: int where "LIGHT_EW_Y_PIN = 11"

abbreviation HIGH :: bool where "HIGH \<equiv> True"
abbreviation LOW :: bool where "LOW \<equiv> False"

type_synonym pins = "int \<Rightarrow> bool"

definition digitalWrite :: "int \<Rightarrow> bool \<Rightarrow> pins \<Rightarrow> pins" where
  "digitalWrite pin level ps = ps(pin := level)"

text \<open>
  State durations in milliseconds. They are \<open>unsigned long\<close>, 32 bits on the
  Arduino target, as is the value of \<open>millis()\<close>.
\<close>

type_synonym ulong = "32 word"

definition NS_GREEN_MS :: ulong where "NS_GREEN_MS = 10000"
definition EW_GREEN_MS :: ulong where "EW_GREEN_MS = 6000"
definition YELLOW_MS :: ulong where "YELLOW_MS = 2000"
definition EMERGENCY_WAIT_MS :: ulong where "EMERGENCY_WAIT_MS = 500"
definition INIT_MS :: ulong where "INIT_MS = 100"

text \<open>
  \<open>enum StateType\<close>. A variable of the enumeration holds an integer, and the
  \<open>default\<close> labels of the switches are there for the values that are none of
  the seven enumerators, so a state is its integer value.
\<close>

definition INIT :: int where "INIT = 0"
definition NS_GREEN :: int where "NS_GREEN = 1"
definition NS_YELLOW :: int where "NS_YELLOW = 2"
definition EW_GREEN :: int where "EW_GREEN = 3"
definition EW_YELLOW :: int where "EW_YELLOW = 4"
definition EMERGENCY_TRANS :: int where "EMERGENCY_TRANS = 5"
definition EMERGENCY_GREEN :: int where "EMERGENCY_GREEN = 6"

lemmas StateType_defs =
  INIT_def NS_GREEN_def NS_YELLOW_def EW_GREEN_def EW_YELLOW_def
  EMERGENCY_TRANS_def EMERGENCY_GREEN_def

lemmas pin_defs =
  LIGHT_NS_G_PIN_def LIGHT_NS_Y_PIN_def LIGHT_EW_G_PIN_def LIGHT_EW_Y_PIN_def

lemmas duration_defs =
  NS_GREEN_MS_def EW_GREEN_MS_def YELLOW_MS_def EMERGENCY_WAIT_MS_def INIT_MS_def

text \<open>The values of the enumeration, as opposed to any other integer.\<close>

definition enumerator :: "int \<Rightarrow> bool" where
  "enumerator s =
     (s = INIT \<or> s = NS_GREEN \<or> s = NS_YELLOW \<or> s = EW_GREEN \<or> s = EW_YELLOW \<or>
      s = EMERGENCY_TRANS \<or> s = EMERGENCY_GREEN)"

text \<open>The global variables: the state, the timer and the board's output pins.\<close>

record controller =
  current_state :: int
  next_state :: int
  stateStartTime :: ulong
  outputs :: pins

text \<open>The four input variables that \<open>readInputs\<close> sets on every iteration.\<close>

record inputs =
  reset_active :: bool
  emergency_active :: bool
  ns_sensor_active :: bool
  ew_sensor_active :: bool

subsection \<open>updateLights\<close>

text \<open>
  All four lamps are switched off, then the lamp of the state is switched on. The
  function reads the global \<open>current_state\<close>, passed here as \<open>cs\<close>.
\<close>

definition updateLights :: "int \<Rightarrow> pins \<Rightarrow> pins" where
  "updateLights cs ps =
     (let off = digitalWrite LIGHT_EW_Y_PIN LOW
                 (digitalWrite LIGHT_EW_G_PIN LOW
                   (digitalWrite LIGHT_NS_Y_PIN LOW
                     (digitalWrite LIGHT_NS_G_PIN LOW ps)))
      in if cs = NS_GREEN \<or> cs = EMERGENCY_GREEN then digitalWrite LIGHT_NS_G_PIN HIGH off
         else if cs = NS_YELLOW then digitalWrite LIGHT_NS_Y_PIN HIGH off
         else if cs = EW_GREEN then digitalWrite LIGHT_EW_G_PIN HIGH off
         else if cs = EW_YELLOW \<or> cs = EMERGENCY_TRANS then digitalWrite LIGHT_EW_Y_PIN HIGH off
         else off)"

subsection \<open>loop\<close>

text \<open>
  Step 3 of \<open>loop\<close>: the next state, from the current state, the elapsed time and
  the inputs. \<open>next_state\<close> starts as \<open>current_state\<close>; the emergency switch
  assigns it in every case, the normal switch only where its condition holds.
\<close>

definition determine_next_state :: "int \<Rightarrow> ulong \<Rightarrow> inputs \<Rightarrow> int" where
  "determine_next_state cs elapsedTime inp =
     (if emergency_active inp then
        (if cs = NS_GREEN \<or> cs = EMERGENCY_GREEN then EMERGENCY_GREEN
         else if cs = EW_GREEN then EW_YELLOW
         else if cs = EW_YELLOW then
           (if elapsedTime \<ge> YELLOW_MS then EMERGENCY_TRANS else EW_YELLOW)
         else if cs = EMERGENCY_TRANS then
           (if elapsedTime \<ge> EMERGENCY_WAIT_MS then EMERGENCY_GREEN else EMERGENCY_TRANS)
         else if cs = NS_YELLOW then EMERGENCY_GREEN
         else EMERGENCY_GREEN)
      else
        (if cs = INIT then (if elapsedTime \<ge> INIT_MS then NS_GREEN else cs)
         else if cs = NS_GREEN then
           (if elapsedTime \<ge> NS_GREEN_MS \<and> ew_sensor_active inp then NS_YELLOW else cs)
         else if cs = NS_YELLOW then (if elapsedTime \<ge> YELLOW_MS then EW_GREEN else cs)
         else if cs = EW_GREEN then
           (if elapsedTime \<ge> EW_GREEN_MS \<and> ns_sensor_active inp then EW_YELLOW else cs)
         else if cs = EW_YELLOW then (if elapsedTime \<ge> YELLOW_MS then NS_GREEN else cs)
         else if cs = EMERGENCY_TRANS then NS_GREEN
         else if cs = EMERGENCY_GREEN then NS_GREEN
         else INIT))"

text \<open>
  One iteration of \<open>loop\<close>. \<open>now\<close> is what \<open>millis()\<close> returns in this iteration:
  the reset path reads it once, for the timer, and so does the other path, for
  \<open>currentTime\<close>. The subtraction is unsigned and wraps around.
\<close>

definition loop :: "inputs \<Rightarrow> ulong \<Rightarrow> controller \<Rightarrow> controller" where
  "loop inp now st =
     (if reset_active inp then
        st\<lparr>current_state := INIT, stateStartTime := now,
           outputs := updateLights INIT (outputs st)\<rparr>
      else
        (let currentTime = now;
             elapsedTime = currentTime - stateStartTime st;
             nxt = determine_next_state (current_state st) elapsedTime inp
         in if nxt \<noteq> current_state st then
              st\<lparr>next_state := nxt, current_state := nxt, stateStartTime := currentTime,
                 outputs := updateLights nxt (outputs st)\<rparr>
            else st\<lparr>next_state := nxt\<rparr>))"

text \<open>The phase clock: the time the controller has spent in its state at \<open>now\<close>.\<close>

definition elapsed :: "ulong \<Rightarrow> controller \<Rightarrow> ulong" where
  "elapsed now st = now - stateStartTime st"

text \<open>
  A run of the loop over a list of ticks, each the inputs read and the time read in
  that iteration; the result is the state after each tick.
\<close>

fun run :: "(inputs \<times> ulong) list \<Rightarrow> controller \<Rightarrow> int list" where
  "run [] st = []"
| "run ((inp, now) # ticks) st =
     (let st' = loop inp now st in current_state st' # run ticks st')"

subsection \<open>setup, and values to run the loop on\<close>

text \<open>The output pins before anything is written: all low.\<close>

definition power_on :: pins where
  "power_on pin = LOW"

text \<open>\<open>setup\<close>: the state is \<open>INIT\<close>, the timer starts, the lamps are updated.\<close>

definition setup_board :: "ulong \<Rightarrow> pins \<Rightarrow> controller" where
  "setup_board now ps =
     \<lparr>current_state = INIT, next_state = INIT, stateStartTime = now,
      outputs = updateLights INIT ps\<rparr>"

text \<open>The controller in state \<open>s\<close>, entered at time \<open>t\<close>, showing the lamps of \<open>s\<close>.\<close>

definition in_state :: "int \<Rightarrow> ulong \<Rightarrow> controller" where
  "in_state s t =
     \<lparr>current_state = s, next_state = s, stateStartTime = t,
      outputs = updateLights s power_on\<rparr>"

text \<open>An input sample: reset, emergency, NS demand, EW demand.\<close>

definition sample :: "bool \<Rightarrow> bool \<Rightarrow> bool \<Rightarrow> bool \<Rightarrow> inputs" where
  "sample r e ns ew =
     \<lparr>reset_active = r, emergency_active = e, ns_sensor_active = ns, ew_sensor_active = ew\<rparr>"

section \<open>The clocked controller (Traffic\_Controller.v)\<close>

text \<open>
  Durations in clock cycles, as loaded into the eight-bit \<open>state_timer\<close>, and the
  three-bit state encoding.
\<close>

definition NS_GREEN_CYCLES :: "8 word" where "NS_GREEN_CYCLES = 100"
definition EW_GREEN_CYCLES :: "8 word" where "EW_GREEN_CYCLES = 60"
definition YELLOW_CYCLES :: "8 word" where "YELLOW_CYCLES = 20"
definition EMERGENCY_WAIT :: "8 word" where "EMERGENCY_WAIT = 5"

definition INIT_v :: "3 word" where "INIT_v = 0"
definition NS_GREEN_v :: "3 word" where "NS_GREEN_v = 1"
definition NS_YELLOW_v :: "3 word" where "NS_YELLOW_v = 2"
definition EW_GREEN_v :: "3 word" where "EW_GREEN_v = 3"
definition EW_YELLOW_v :: "3 word" where "EW_YELLOW_v = 4"
definition EMERGENCY_TRANS_v :: "3 word" where "EMERGENCY_TRANS_v = 5"
definition EMERGENCY_GREEN_v :: "3 word" where "EMERGENCY_GREEN_v = 6"

lemmas state_v_defs =
  INIT_v_def NS_GREEN_v_def NS_YELLOW_v_def EW_GREEN_v_def EW_YELLOW_v_def
  EMERGENCY_TRANS_v_def EMERGENCY_GREEN_v_def

lemmas cycles_defs =
  NS_GREEN_CYCLES_def EW_GREEN_CYCLES_def YELLOW_CYCLES_def EMERGENCY_WAIT_def

definition enumerator_v :: "3 word \<Rightarrow> bool" where
  "enumerator_v s =
     (s = INIT_v \<or> s = NS_GREEN_v \<or> s = NS_YELLOW_v \<or> s = EW_GREEN_v \<or> s = EW_YELLOW_v \<or>
      s = EMERGENCY_TRANS_v \<or> s = EMERGENCY_GREEN_v)"

text \<open>The registers of the module.\<close>

record registers =
  current_state_v :: "3 word"
  state_timer :: "8 word"

text \<open>The sensor wires: bits 1 and 0 are the NS sensors, bits 3 and 2 the EW sensors.\<close>

definition ns_sensor_active_v :: "4 word \<Rightarrow> bool" where
  "ns_sensor_active_v traffic_sensors = (bit traffic_sensors 1 \<or> bit traffic_sensors 0)"

definition ew_sensor_active_v :: "4 word \<Rightarrow> bool" where
  "ew_sensor_active_v traffic_sensors = (bit traffic_sensors 3 \<or> bit traffic_sensors 2)"

text \<open>The combinational next-state block.\<close>

definition next_state_v :: "3 word \<Rightarrow> 8 word \<Rightarrow> bool \<Rightarrow> 4 word \<Rightarrow> 3 word" where
  "next_state_v cs timer emergency traffic_sensors =
     (if emergency then
        (if cs = NS_GREEN_v \<or> cs = EMERGENCY_GREEN_v then EMERGENCY_GREEN_v
         else if cs = EW_GREEN_v then EW_YELLOW_v
         else if cs = EW_YELLOW_v then EMERGENCY_TRANS_v
         else if cs = NS_YELLOW_v then EMERGENCY_GREEN_v
         else if cs = EMERGENCY_TRANS_v then EMERGENCY_GREEN_v
         else if cs = INIT_v then EMERGENCY_GREEN_v
         else EMERGENCY_GREEN_v)
      else
        (if cs = INIT_v then NS_GREEN_v
         else if cs = NS_GREEN_v then
           (if timer = 0 \<and> ew_sensor_active_v traffic_sensors then NS_YELLOW_v else cs)
         else if cs = NS_YELLOW_v then (if timer = 0 then EW_GREEN_v else cs)
         else if cs = EW_GREEN_v then
           (if timer = 0 \<and> ns_sensor_active_v traffic_sensors then EW_YELLOW_v else cs)
         else if cs = EW_YELLOW_v then (if timer = 0 then NS_GREEN_v else cs)
         else if cs = EMERGENCY_TRANS_v then (if timer = 0 then NS_GREEN_v else cs)
         else if cs = EMERGENCY_GREEN_v then NS_GREEN_v
         else INIT_v))"

text \<open>
  The clocked block, evaluated once at an edge with the inputs of that edge: reset
  wins; otherwise the next state is stored, and the timer is loaded on a change of
  state and counts down to zero otherwise.
\<close>

definition state_register :: "bool \<Rightarrow> bool \<Rightarrow> 4 word \<Rightarrow> registers \<Rightarrow> registers" where
  "state_register reset emergency traffic_sensors r =
     (if reset then r\<lparr>current_state_v := INIT_v, state_timer := 0\<rparr>
      else
        (let nxt = next_state_v (current_state_v r) (state_timer r) emergency traffic_sensors
         in if nxt \<noteq> current_state_v r then
              r\<lparr>current_state_v := nxt,
                state_timer :=
                  (if nxt = NS_GREEN_v then NS_GREEN_CYCLES - 1
                   else if nxt = EW_GREEN_v then EW_GREEN_CYCLES - 1
                   else if nxt = NS_YELLOW_v then YELLOW_CYCLES - 1
                   else if nxt = EW_YELLOW_v then YELLOW_CYCLES - 1
                   else if nxt = EMERGENCY_TRANS_v then EMERGENCY_WAIT - 1
                   else if nxt = EMERGENCY_GREEN_v then 1
                   else if nxt = INIT_v then 1
                   else 1)\<rparr>
            else if state_timer r \<noteq> 0 then
              r\<lparr>current_state_v := nxt, state_timer := state_timer r - 1\<rparr>
            else r\<lparr>current_state_v := nxt\<rparr>))"

text \<open>The combinational output block: bit 3 EW\_Y, bit 2 EW\_G, bit 1 NS\_Y, bit 0 NS\_G.\<close>

definition light :: "3 word \<Rightarrow> 4 word" where
  "light cs =
     (if cs = NS_GREEN_v then 1
      else if cs = NS_YELLOW_v then 2
      else if cs = EW_GREEN_v then 4
      else if cs = EW_YELLOW_v then 8
      else if cs = EMERGENCY_TRANS_v then 8
      else if cs = EMERGENCY_GREEN_v then 1
      else if cs = INIT_v then 0
      else 0)"

text \<open>A run of the module over a list of edges, each with its reset, emergency and
  sensor inputs; the result is the state register after each edge.\<close>

fun run_v :: "(bool \<times> bool \<times> 4 word) list \<Rightarrow> registers \<Rightarrow> 3 word list" where
  "run_v [] r = []"
| "run_v ((reset, emergency, traffic_sensors) # edges) r =
     (let r' = state_register reset emergency traffic_sensors r
      in current_state_v r' # run_v edges r')"

section \<open>Durations and the correspondence of the two controllers\<close>

text \<open>
  The minimum dwell of each state, in milliseconds: the duration constant that the
  loop compares the elapsed time with in that state.
\<close>

definition dwell :: "int \<Rightarrow> ulong" where
  "dwell s =
     (if s = NS_GREEN then NS_GREEN_MS
      else if s = EW_GREEN then EW_GREEN_MS
      else if s = NS_YELLOW \<or> s = EW_YELLOW then YELLOW_MS
      else if s = EMERGENCY_TRANS then EMERGENCY_WAIT_MS
      else if s = INIT then INIT_MS
      else 0)"

text \<open>
  The two controllers number their states alike, so a state of the Verilog module
  stands for the C++ state of the same number. In a state that has a dwell, its
  timer has run out exactly when the elapsed time of the C++ loop has reached the
  dwell of the state: that is the conversion between cycle counts and milliseconds.
\<close>

definition state_of :: "3 word \<Rightarrow> int" where
  "state_of c = uint c"

definition same_phase :: "3 word \<Rightarrow> 8 word \<Rightarrow> ulong \<Rightarrow> bool" where
  "same_phase c timer e =
     (if dwell (state_of c) = 0 then True else (timer = 0) = (dwell (state_of c) \<le> e))"

definition same_inputs :: "bool \<Rightarrow> 4 word \<Rightarrow> inputs \<Rightarrow> bool" where
  "same_inputs emergency traffic_sensors inp =
     (emergency_active inp = emergency \<and>
      ns_sensor_active inp = ns_sensor_active_v traffic_sensors \<and>
      ew_sensor_active inp = ew_sensor_active_v traffic_sensors)"

text \<open>The ticks of a run all have the emergency input active and the reset input not.\<close>

fun emergency_held :: "(inputs \<times> ulong) list \<Rightarrow> bool" where
  "emergency_held [] = True"
| "emergency_held ((inp, now) # ticks) =
     (emergency_active inp \<and> \<not> reset_active inp \<and> emergency_held ticks)"

section \<open>Dwell over a run, and the two controllers in lockstep\<close>

text \<open>
  The dwell of each state of the module, in clock cycles: the count whose
  predecessor the clocked block loads into the timer when the state is entered.
  The other states have no dwell.
\<close>

definition cycles :: "3 word \<Rightarrow> 8 word" where
  "cycles c =
     (if c = NS_GREEN_v then NS_GREEN_CYCLES
      else if c = EW_GREEN_v then EW_GREEN_CYCLES
      else if c = NS_YELLOW_v \<or> c = EW_YELLOW_v then YELLOW_CYCLES
      else if c = EMERGENCY_TRANS_v then EMERGENCY_WAIT
      else 0)"

text \<open>
  The states that the loop holds until their dwell is over: with the emergency
  input active \<open>EW_YELLOW\<close> and \<open>EMERGENCY_TRANS\<close>, without it the two greens and
  the two yellows.
\<close>

definition holds_in :: "int \<Rightarrow> inputs \<Rightarrow> bool" where
  "holds_in s inp =
     (if emergency_active inp then s = EW_YELLOW \<or> s = EMERGENCY_TRANS
      else s = NS_GREEN \<or> s = NS_YELLOW \<or> s = EW_GREEN \<or> s = EW_YELLOW)"

text \<open>
  Ticks taken without reset, in a state \<open>s\<close> entered at time \<open>t0\<close>, each less than
  the dwell of \<open>s\<close> after \<open>t0\<close> and with inputs under which \<open>s\<close> is a held state.
\<close>

fun within_dwell :: "int \<Rightarrow> ulong \<Rightarrow> (inputs \<times> ulong) list \<Rightarrow> bool" where
  "within_dwell s t0 [] = True"
| "within_dwell s t0 ((inp, now) # ticks) =
     (\<not> reset_active inp \<and> holds_in s inp \<and> now - t0 < dwell s \<and> within_dwell s t0 ticks)"

text \<open>Clock edges without reset and without emergency.\<close>

fun quiet :: "(bool \<times> bool \<times> 4 word) list \<Rightarrow> bool" where
  "quiet [] = True"
| "quiet ((reset, emergency, traffic_sensors) # edges) =
     (\<not> reset \<and> \<not> emergency \<and> quiet edges)"

text \<open>Clock edges without emergency.\<close>

fun no_emergency :: "(bool \<times> bool \<times> 4 word) list \<Rightarrow> bool" where
  "no_emergency [] = True"
| "no_emergency ((reset, emergency, traffic_sensors) # edges) =
     (\<not> emergency \<and> no_emergency edges)"

text \<open>
  The clock period under which the durations of the loop are the cycle counts of
  the module: 100 ms (10000 ms are 100 cycles, 6000 ms 60, 2000 ms 20, 500 ms 5).
  In lockstep the loop runs once per clock edge, 100 ms after the iteration
  before, on the inputs of that edge.
\<close>

definition CYCLE_MS :: ulong where "CYCLE_MS = 100"


fun lockstep :: "ulong \<Rightarrow> (bool \<times> bool \<times> 4 word) list \<Rightarrow> (inputs \<times> ulong) list" where
  "lockstep t [] = []"
| "lockstep t ((reset, emergency, traffic_sensors) # edges) =
     (sample reset emergency (ns_sensor_active_v traffic_sensors)
        (ew_sensor_active_v traffic_sensors), t + CYCLE_MS) #
     lockstep (t + CYCLE_MS) edges"

text \<open>
  An edge at which the two controllers part: no reset, the timer of the module not
  yet at zero, and the module in \<open>EMERGENCY_TRANS\<close> or, with the emergency input
  active, in \<open>EW_YELLOW\<close>. A run of the module is gated alike when none of its
  edges is such an edge.
\<close>

definition ungated :: "bool \<Rightarrow> bool \<Rightarrow> registers \<Rightarrow> bool" where
  "ungated reset emergency r =
     (\<not> reset \<and> state_timer r \<noteq> 0 \<and>
      (current_state_v r = EMERGENCY_TRANS_v \<or>
       emergency \<and> current_state_v r = EW_YELLOW_v))"


fun gated_alike :: "(bool \<times> bool \<times> 4 word) list \<Rightarrow> registers \<Rightarrow> bool" where
  "gated_alike [] r = True"
| "gated_alike ((reset, emergency, traffic_sensors) # edges) r =
     (\<not> ungated reset emergency r \<and>
      gated_alike edges (state_register reset emergency traffic_sensors r))"

text \<open>
  The loop, last run at time \<open>t\<close>, and the module are in phase after \<open>n\<close> iterations:
  they are in the same state, the loop has spent at most \<open>100 * n\<close> ms in it, and
  in a state with a dwell it has spent a whole number \<open>k\<close> of clock periods there
  while the timer of the module has counted down \<open>k\<close> from its load.
\<close>

definition in_phase :: "nat \<Rightarrow> ulong \<Rightarrow> controller \<Rightarrow> registers \<Rightarrow> bool" where
  "in_phase n t st r =
     (current_state st = state_of (current_state_v r) \<and>
      unat (t - stateStartTime st) \<le> 100 * n \<and>
      (cycles (current_state_v r) = 0 \<or>
       100 dvd unat (t - stateStartTime st) \<and>
       unat (state_timer r) =
         unat (cycles (current_state_v r)) - 1 - unat (t - stateStartTime st) div 100))"

text \<open>The lamps shown are those of the state.\<close>

definition lamps_of_state :: "controller \<Rightarrow> bool" where
  "lamps_of_state st =
     (outputs st LIGHT_NS_G_PIN = (current_state st = NS_GREEN \<or> current_state st = EMERGENCY_GREEN) \<and>
      outputs st LIGHT_NS_Y_PIN = (current_state st = NS_YELLOW) \<and>
      outputs st LIGHT_EW_G_PIN = (current_state st = EW_GREEN) \<and>
      outputs st LIGHT_EW_Y_PIN = (current_state st = EW_YELLOW \<or> current_state st = EMERGENCY_TRANS))"

section \<open>The output mapper\<close>

lemma updateLights_pins:
  "updateLights cs ps LIGHT_NS_G_PIN = (cs = NS_GREEN \<or> cs = EMERGENCY_GREEN)"
  "updateLights cs ps LIGHT_NS_Y_PIN = (cs = NS_YELLOW)"
  "updateLights cs ps LIGHT_EW_G_PIN = (cs = EW_GREEN)"
  "updateLights cs ps LIGHT_EW_Y_PIN = (cs = EW_YELLOW \<or> cs = EMERGENCY_TRANS)"
  by (auto simp: updateLights_def Let_def digitalWrite_def pin_defs StateType_defs)

text \<open>
  C1. For every state value, enumerator or not, the lamps that \<open>updateLights\<close> leaves
  lit include at most one of the two greens and at most one of the two yellows, and
  in state \<open>INIT\<close> all four lamps are off. The same holds of the \<open>light\<close> vector
  of the Verilog module, for every three-bit state.
\<close>

theorem output_mapper_mutual_exclusion:
  "\<not> (updateLights s ps LIGHT_NS_G_PIN \<and> updateLights s ps LIGHT_EW_G_PIN) \<and>
   \<not> (updateLights s ps LIGHT_NS_Y_PIN \<and> updateLights s ps LIGHT_EW_Y_PIN) \<and>
   \<not> updateLights INIT ps LIGHT_NS_G_PIN \<and> \<not> updateLights INIT ps LIGHT_NS_Y_PIN \<and>
   \<not> updateLights INIT ps LIGHT_EW_G_PIN \<and> \<not> updateLights INIT ps LIGHT_EW_Y_PIN \<and>
   \<not> (bit (light c) 0 \<and> bit (light c) 2) \<and>
   \<not> (bit (light c) 1 \<and> bit (light c) 3) \<and>
   light INIT_v = 0"
proof -
  have cpp: "\<not> (updateLights s ps LIGHT_NS_G_PIN \<and> updateLights s ps LIGHT_EW_G_PIN)"
    "\<not> (updateLights s ps LIGHT_NS_Y_PIN \<and> updateLights s ps LIGHT_EW_Y_PIN)"
    by (auto simp: updateLights_pins StateType_defs)
  have init: "\<not> updateLights INIT ps LIGHT_NS_G_PIN" "\<not> updateLights INIT ps LIGHT_NS_Y_PIN"
    "\<not> updateLights INIT ps LIGHT_EW_G_PIN" "\<not> updateLights INIT ps LIGHT_EW_Y_PIN"
    by (simp_all add: updateLights_pins StateType_defs)
  have v: "\<not> (bit (light c) 0 \<and> bit (light c) 2)" "\<not> (bit (light c) 1 \<and> bit (light c) 3)"
    by (simp_all add: light_def)
  have "light INIT_v = 0"
    by (simp add: light_def state_v_defs)
  with cpp init v show ?thesis by blast
qed

theorem output_mapper_mutual_exclusion_witness:
  "\<not> (updateLights 7 power_on LIGHT_NS_G_PIN \<and> updateLights 7 power_on LIGHT_EW_G_PIN) \<and>
   \<not> (updateLights 7 power_on LIGHT_NS_Y_PIN \<and> updateLights 7 power_on LIGHT_EW_Y_PIN) \<and>
   \<not> updateLights INIT power_on LIGHT_NS_G_PIN \<and> \<not> updateLights INIT power_on LIGHT_NS_Y_PIN \<and>
   \<not> updateLights INIT power_on LIGHT_EW_G_PIN \<and> \<not> updateLights INIT power_on LIGHT_EW_Y_PIN \<and>
   \<not> (bit (light 7) 0 \<and> bit (light 7) 2) \<and>
   \<not> (bit (light 7) 1 \<and> bit (light 7) 3) \<and>
   light INIT_v = 0"
  using output_mapper_mutual_exclusion [of 7 power_on 7] by simp

text \<open>
  After \<open>setup\<close> the lamps are those of the state, and every iteration of the loop
  keeps them so: the pattern shown is always the output mapper's image of the state.
\<close>

lemma lamps_of_state_setup: "lamps_of_state (setup_board now ps)"
  by (simp add: lamps_of_state_def setup_board_def updateLights_pins)

lemma lamps_of_state_loop:
  assumes "lamps_of_state st"
  shows "lamps_of_state (loop inp now st)"
  using assms
  by (simp add: lamps_of_state_def loop_def Let_def updateLights_pins)

section \<open>One iteration of the loop\<close>

lemma loop_no_reset:
  assumes "\<not> reset_active inp"
  shows "current_state (loop inp now st) =
         determine_next_state (current_state st) (elapsed now st) inp"
  using assms by (simp add: loop_def elapsed_def Let_def)

lemma loop_fields:
  assumes "\<not> reset_active inp"
  shows "current_state (loop inp now st) =
           determine_next_state (current_state st) (now - stateStartTime st) inp"
    and "stateStartTime (loop inp now st) =
           (if determine_next_state (current_state st) (now - stateStartTime st) inp =
               current_state st
            then stateStartTime st else now)"
  using assms by (simp_all add: loop_def Let_def)

section \<open>The fail-safe defaults\<close>

lemma enumerator_iff: "enumerator s \<longleftrightarrow> 0 \<le> s \<and> s \<le> 6"
  by (auto simp: enumerator_def StateType_defs)

lemma word3_cases:
  fixes c :: "3 word"
  shows "c \<in> {0, 1, 2, 3, 4, 5, 6, 7}"
proof -
  obtain n where n: "c = of_nat n" "n < 2 ^ LENGTH(3)"
    by (cases c) auto
  from n(2) have "n < Suc (Suc (Suc (Suc (Suc (Suc (Suc (Suc 0)))))))"
    by simp
  then have "n \<in> {0, 1, 2, 3, 4, 5, 6, 7}"
    by (auto simp: less_Suc_eq)
  with n(1) show ?thesis by auto
qed

lemma enumerator_v_iff: "enumerator_v c \<longleftrightarrow> c \<noteq> 7"
  using word3_cases [of c] by (auto simp: enumerator_v_def state_v_defs)

lemma determine_next_state_default:
  assumes "\<not> enumerator s"
  shows "determine_next_state s e inp = (if emergency_active inp then EMERGENCY_GREEN else INIT)"
  using assms by (simp add: enumerator_def determine_next_state_def)

lemma updateLights_default:
  assumes "\<not> enumerator s"
  shows "\<not> updateLights s ps LIGHT_NS_G_PIN" "\<not> updateLights s ps LIGHT_NS_Y_PIN"
    "\<not> updateLights s ps LIGHT_EW_G_PIN" "\<not> updateLights s ps LIGHT_EW_Y_PIN"
  using assms by (simp_all add: enumerator_def updateLights_pins)

text \<open>
  C2, as the claim states it, fails: in a state that is no enumerator, with the
  emergency input active, the \<open>default\<close> label of the emergency switch gives
  \<open>EMERGENCY_GREEN\<close>, not \<open>INIT\<close>, in the C++ loop and in the Verilog module alike.
\<close>

theorem unknown_state_emergency_counterexample:
  "\<not> enumerator 7 \<and>
   determine_next_state 7 0
     \<lparr>reset_active = False, emergency_active = True,
      ns_sensor_active = False, ew_sensor_active = False\<rparr> = EMERGENCY_GREEN \<and>
   EMERGENCY_GREEN \<noteq> INIT \<and>
   \<not> enumerator_v 7 \<and> next_state_v 7 0 True 0 = EMERGENCY_GREEN_v \<and>
   EMERGENCY_GREEN_v \<noteq> INIT_v"
  by (simp add: enumerator_iff enumerator_v_iff determine_next_state_default)
     (simp add: next_state_v_def state_v_defs StateType_defs)

text \<open>
  C2, amended. For every state value that is no enumerator, \<open>updateLights\<close> leaves
  all four lamps off, whatever the inputs; and when the emergency input is not
  active, the transition logic gives \<open>INIT\<close> for every elapsed time and every
  demand flag, so the tick ends in \<open>INIT\<close>. The Verilog module does the same with
  its one state value that is no enumerator.
\<close>

theorem unknown_state_fail_safe:
  assumes "\<not> enumerator s" and "\<not> emergency_active inp" and "current_state st = s"
    and "\<not> enumerator_v c"
  shows "\<not> updateLights s ps LIGHT_NS_G_PIN \<and> \<not> updateLights s ps LIGHT_NS_Y_PIN \<and>
         \<not> updateLights s ps LIGHT_EW_G_PIN \<and> \<not> updateLights s ps LIGHT_EW_Y_PIN \<and>
         determine_next_state s e inp = INIT \<and>
         current_state (loop inp now st) = INIT \<and>
         light c = 0 \<and> next_state_v c timer False sensors = INIT_v"
proof -
  have next_s: "determine_next_state s e' inp = INIT" for e'
    using assms(1,2) by (simp add: determine_next_state_default)
  have "current_state (loop inp now st) = INIT"
    using assms(3) next_s by (simp add: loop_def Let_def)
  moreover have "c = 7"
    using assms(4) by (simp add: enumerator_v_iff)
  then have "light c = 0 \<and> next_state_v c timer False sensors = INIT_v"
    by (simp add: light_def next_state_v_def state_v_defs)
  ultimately show ?thesis
    using updateLights_default [OF assms(1)] next_s by blast
qed

theorem unknown_state_fail_safe_witness:
  "\<not> updateLights 7 power_on LIGHT_NS_G_PIN \<and> \<not> updateLights 7 power_on LIGHT_NS_Y_PIN \<and>
   \<not> updateLights 7 power_on LIGHT_EW_G_PIN \<and> \<not> updateLights 7 power_on LIGHT_EW_Y_PIN \<and>
   determine_next_state 7 0 (sample False False True True) = INIT \<and>
   current_state (loop (sample False False True True) 0 (in_state 7 0)) = INIT \<and>
   light 7 = 0 \<and> next_state_v 7 0 False 0 = INIT_v"
proof -
  have a: "\<not> enumerator 7" and d: "\<not> enumerator_v 7"
    by (simp_all add: enumerator_iff enumerator_v_iff)
  have b: "\<not> emergency_active (sample False False True True)"
    and c: "current_state (in_state 7 0) = 7"
    by (simp_all add: sample_def in_state_def)
  show ?thesis
    by (rule unknown_state_fail_safe [OF a b c d])
qed

section \<open>Minimum dwell\<close>

text \<open>
  C3, as the claim states it, fails: with the emergency input active, \<open>EW_GREEN\<close>
  is left for \<open>EW_YELLOW\<close> at elapsed time 0, long before its 6 seconds.
\<close>

theorem minimum_dwell_counterexample:
  "(0 :: ulong) < dwell EW_GREEN \<and>
   determine_next_state EW_GREEN 0 (sample False True False False) = EW_YELLOW \<and>
   EW_YELLOW \<noteq> EW_GREEN"
  by (simp add: determine_next_state_def dwell_def sample_def StateType_defs duration_defs)

lemma determine_next_state_dwell_normal:
  assumes "\<not> emergency_active inp"
    and "s = NS_GREEN \<or> s = NS_YELLOW \<or> s = EW_GREEN \<or> s = EW_YELLOW"
    and "e < dwell s"
  shows "determine_next_state s e inp = s"
  using assms
  by (auto simp: determine_next_state_def dwell_def StateType_defs not_le [symmetric])

lemma determine_next_state_dwell_emergency:
  assumes "emergency_active inp"
    and "s = EW_YELLOW \<or> s = EMERGENCY_TRANS"
    and "e < dwell s"
  shows "determine_next_state s e inp = s"
  using assms
  by (auto simp: determine_next_state_def dwell_def StateType_defs not_le [symmetric])

lemma determine_next_state_held:
  assumes "holds_in s inp" and "e < dwell s"
  shows "determine_next_state s e inp = s"
  using assms determine_next_state_dwell_normal [of inp s e]
    determine_next_state_dwell_emergency [of inp s e]
  by (simp add: holds_in_def split: if_splits)

lemma held_from_start:
  assumes "current_state st = s" and "stateStartTime st = t0" and "within_dwell s t0 ticks"
  shows "run ticks st = replicate (length ticks) s"
  using assms
proof (induction ticks arbitrary: st)
  case Nil
  then show ?case by simp
next
  case (Cons tick ticks)
  obtain inp now where tick: "tick = (inp, now)" by (cases tick)
  let ?st = "loop inp now st"
  from Cons.prems tick have a: "\<not> reset_active inp" "holds_in s inp" "now - t0 < dwell s"
    and rest: "within_dwell s t0 ticks"
    by simp_all
  from a(2,3) have stay: "determine_next_state s (now - t0) inp = s"
    by (rule determine_next_state_held)
  with Cons.prems(1,2) a(1) have "current_state ?st = s" "stateStartTime ?st = t0"
    by (simp_all add: loop_fields)
  with Cons.IH [OF _ _ rest, of ?st] tick show ?case
    by (simp add: Let_def)
qed

lemma next_state_v_held:
  assumes "cycles c \<noteq> 0" and "timer \<noteq> 0"
  shows "next_state_v c timer False sensors = c"
  using assms by (auto simp: next_state_v_def cycles_def state_v_defs split: if_splits)

lemma held_from_timer:
  assumes "current_state_v r = c" and "cycles c \<noteq> 0" and "quiet edges"
    and "length edges \<le> unat (state_timer r)"
  shows "run_v edges r = replicate (length edges) c"
  using assms
proof (induction edges arbitrary: r)
  case Nil
  then show ?case by simp
next
  case (Cons edge edges)
  obtain reset emergency sensors where edge: "edge = (reset, emergency, sensors)"
    by (cases edge)
  from Cons.prems edge have q: "\<not> reset" "\<not> emergency" "quiet edges"
    by simp_all
  let ?r = "state_register False False sensors r"
  from Cons.prems(4) have t: "state_timer r \<noteq> 0"
    by auto
  with Cons.prems(1,2) have stay: "next_state_v (current_state_v r) (state_timer r) False sensors = c"
    by (simp add: next_state_v_held)
  with Cons.prems(1) t have r': "current_state_v ?r = c" "state_timer ?r = state_timer r - 1"
    by (simp_all add: state_register_def Let_def)
  from t have "unat (state_timer r - 1) = unat (state_timer r) - 1"
    by (rule unat_minus_one)
  with Cons.prems(4) r'(2) have "length edges \<le> unat (state_timer ?r)"
    by simp
  from Cons.IH [OF r'(1) Cons.prems(2) q(3) this] edge q r'(1) show ?case
    by (simp add: Let_def)
qed

lemma timer_on_entry:
  assumes "current_state_v (state_register False emergency sensors r) = c"
    and "current_state_v r \<noteq> c" and "cycles c \<noteq> 0"
  shows "state_timer (state_register False emergency sensors r) = cycles c - 1"
  using assms
  by (auto simp: state_register_def Let_def cycles_def state_v_defs split: if_splits)

text \<open>
  C3, amended. In the C++ loop, a state entered by a tick at time \<open>t0\<close> is still
  the state after every later tick without reset that is taken less than the dwell
  of the state after \<open>t0\<close>: \<open>NS_GREEN\<close> (10 s), \<open>NS_YELLOW\<close> (2 s) and
  \<open>EW_GREEN\<close> (6 s) on ticks without emergency, \<open>EW_YELLOW\<close> (2 s) on every tick,
  \<open>EMERGENCY_TRANS\<close> (0.5 s) on ticks with emergency. In the Verilog module, a
  state entered at a clock edge is still the state after each of the next edges
  without reset and without emergency, as long as these are fewer than the cycle
  count of the state: 100 for \<open>NS_GREEN\<close>, 60 for \<open>EW_GREEN\<close>, 20 for the two
  yellows, 5 for \<open>EMERGENCY_TRANS\<close>.
\<close>

theorem minimum_dwell:
  "(\<not> reset_active inp0 \<and> current_state st0 \<noteq> s \<and>
    current_state (loop inp0 t0 st0) = s \<and> within_dwell s t0 ticks
    \<longrightarrow> run ticks (loop inp0 t0 st0) = replicate (length ticks) s) \<and>
   (current_state_v r0 \<noteq> c \<and>
    current_state_v (state_register False emergency0 sensors0 r0) = c \<and>
    quiet edges \<and> length edges < unat (cycles c)
    \<longrightarrow> run_v edges (state_register False emergency0 sensors0 r0) =
        replicate (length edges) c)"
proof (intro conjI impI)
  assume a: "\<not> reset_active inp0 \<and> current_state st0 \<noteq> s \<and>
    current_state (loop inp0 t0 st0) = s \<and> within_dwell s t0 ticks"
  then have "stateStartTime (loop inp0 t0 st0) = t0"
    by (auto simp: loop_fields)
  with a show "run ticks (loop inp0 t0 st0) = replicate (length ticks) s"
    by (simp add: held_from_start)
next
  let ?r = "state_register False emergency0 sensors0 r0"
  assume b: "current_state_v r0 \<noteq> c \<and> current_state_v ?r = c \<and>
    quiet edges \<and> length edges < unat (cycles c)"
  then have c: "cycles c \<noteq> 0"
    by auto
  with b have "state_timer ?r = cycles c - 1"
    by (simp add: timer_on_entry)
  moreover from c have "unat (cycles c - 1) = unat (cycles c) - 1"
    by (rule unat_minus_one)
  moreover from b have "length edges < unat (cycles c)"
    by simp
  ultimately have "length edges \<le> unat (state_timer ?r)"
    by simp
  with b c show "run_v edges ?r = replicate (length edges) c"
    by (simp add: held_from_timer)
qed

theorem minimum_dwell_witness:
  "run [(sample False False True True, 10500), (sample False False False False, 11999)]
     (loop (sample False False False True) 10000 (in_state NS_GREEN 0)) =
     [NS_YELLOW, NS_YELLOW] \<and>
   run [(sample False True True True, 1999)]
     (loop (sample False True False False) 0 (in_state EW_GREEN 0)) = [EW_YELLOW] \<and>
   run_v [(False, False, 12), (False, False, 0), (False, False, 3)]
     (state_register False False 12 \<lparr>current_state_v = NS_GREEN_v, state_timer = 0\<rparr>) =
     [NS_YELLOW_v, NS_YELLOW_v, NS_YELLOW_v]"
proof -
  let ?i = "sample False False False True" and ?st = "in_state NS_GREEN 0"
  let ?j = "sample False True False False" and ?su = "in_state EW_GREEN 0"
  let ?r = "\<lparr>current_state_v = NS_GREEN_v, state_timer = 0\<rparr>"
  have cpp: "\<not> reset_active ?i \<and> current_state ?st \<noteq> NS_YELLOW \<and>
      current_state (loop ?i 10000 ?st) = NS_YELLOW \<and>
      within_dwell NS_YELLOW 10000
        [(sample False False True True, 10500), (sample False False False False, 11999)]"
    by (simp add: loop_fields sample_def in_state_def determine_next_state_def holds_in_def
        dwell_def StateType_defs duration_defs)
  have cpp2: "\<not> reset_active ?j \<and> current_state ?su \<noteq> EW_YELLOW \<and>
      current_state (loop ?j 0 ?su) = EW_YELLOW \<and>
      within_dwell EW_YELLOW 0 [(sample False True True True, 1999)]"
    by (simp add: loop_fields sample_def in_state_def determine_next_state_def holds_in_def
        dwell_def StateType_defs duration_defs)
  have v: "current_state_v ?r \<noteq> NS_YELLOW_v \<and>
      current_state_v (state_register False False 12 ?r) = NS_YELLOW_v \<and>
      quiet [(False, False, 12), (False, False, 0), (False, False, 3)] \<and>
      length [(False, False, 12 :: 4 word), (False, False, 0), (False, False, 3)]
        < unat (cycles NS_YELLOW_v)"
    by (simp add: state_register_def next_state_v_def Let_def ew_sensor_active_v_def
        cycles_def state_v_defs cycles_defs)
  from cpp cpp2 v
    minimum_dwell [of ?i ?st NS_YELLOW 10000
      "[(sample False False True True, 10500), (sample False False False False, 11999)]"
      ?r NS_YELLOW_v False 12 "[(False, False, 12), (False, False, 0), (False, False, 3)]"]
    minimum_dwell [of ?j ?su EW_YELLOW 0 "[(sample False True True True, 1999)]"
      ?r NS_YELLOW_v False 12 "[(False, False, 12), (False, False, 0), (False, False, 3)]"]
  show ?thesis
    by simp
qed

section \<open>The two controllers compared\<close>

text \<open>
  C4, as the claim states it, fails. In \<open>EMERGENCY_TRANS\<close> with the emergency
  input cleared and the dwell not yet over (timer 4 of the module, elapsed time 0 of
  the loop), the Verilog module stays in \<open>EMERGENCY_TRANS\<close> and the C++ loop moves
  to \<open>NS_GREEN\<close>.
\<close>

theorem drivers_differ_counterexample:
  "same_phase EMERGENCY_TRANS_v 4 0 \<and>
   same_inputs False 0 (sample False False False False) \<and>
   state_of EMERGENCY_TRANS_v = EMERGENCY_TRANS \<and>
   state_of (next_state_v EMERGENCY_TRANS_v 4 False 0) = EMERGENCY_TRANS \<and>
   determine_next_state EMERGENCY_TRANS 0 (sample False False False False) = NS_GREEN \<and>
   EMERGENCY_TRANS \<noteq> NS_GREEN"
  by (simp add: same_phase_def same_inputs_def state_of_def dwell_def sample_def
      next_state_v_def determine_next_state_def ns_sensor_active_v_def ew_sensor_active_v_def
      state_v_defs StateType_defs duration_defs)

text \<open>
  The other three places where the two transition functions part: \<open>INIT\<close>
  without emergency (the loop waits 100 ms, the module does not wait; one clock
  period later the loop has waited long enough), and \<open>EW_YELLOW\<close> and
  \<open>EMERGENCY_TRANS\<close> with emergency (the loop waits for the dwell, the module does
  not read its timer).
\<close>

lemma drivers_differ_elsewhere:
  "same_phase INIT_v 1 0 \<and>
   next_state_v INIT_v 1 False 0 = NS_GREEN_v \<and>
   determine_next_state INIT 0 (sample False False False False) = INIT"
  "same_phase EW_YELLOW_v 19 0 \<and>
   next_state_v EW_YELLOW_v 19 True 0 = EMERGENCY_TRANS_v \<and>
   determine_next_state EW_YELLOW 0 (sample False True False False) = EW_YELLOW"
  "same_phase EMERGENCY_TRANS_v 4 0 \<and>
   next_state_v EMERGENCY_TRANS_v 4 True 0 = EMERGENCY_GREEN_v \<and>
   determine_next_state EMERGENCY_TRANS 0 (sample False True False False) = EMERGENCY_TRANS"
  by (simp_all add: same_phase_def state_of_def dwell_def sample_def
      next_state_v_def determine_next_state_def state_v_defs StateType_defs duration_defs)

lemma state_of_inject: "state_of a = state_of b \<longleftrightarrow> a = b"
  by (simp add: state_of_def word_uint_eq_iff [symmetric])

lemma dwell_in_cycles:
  assumes "cycles c \<noteq> 0"
  shows "unat (dwell (state_of c)) = 100 * unat (cycles c)"
  using assms word3_cases [of c]
  by (auto simp: cycles_def dwell_def state_of_def state_v_defs StateType_defs
      duration_defs cycles_defs split: if_splits)

lemma next_states_agree:
  assumes inp: "same_inputs emergency sensors inp"
    and ok: "\<not> (timer \<noteq> 0 \<and> (c = EMERGENCY_TRANS_v \<or> emergency \<and> c = EW_YELLOW_v))"
    and phase: "cycles c \<noteq> 0 \<Longrightarrow> (timer = 0) = (dwell (state_of c) \<le> e)"
    and init: "INIT_MS \<le> e"
  shows "state_of (next_state_v c timer emergency sensors) =
         determine_next_state (state_of c) e inp"
proof -
  note defs = next_state_v_def determine_next_state_def state_of_def state_v_defs
    StateType_defs dwell_def duration_defs cycles_def cycles_defs
  from inp have i: "emergency_active inp = emergency"
    "ns_sensor_active inp = ns_sensor_active_v sensors"
    "ew_sensor_active inp = ew_sensor_active_v sensors"
    by (simp_all add: same_inputs_def)
  consider "c = 0" | "c = 1" | "c = 2" | "c = 3" | "c = 4" | "c = 5" | "c = 6" | "c = 7"
    using word3_cases [of c] by auto
  then show ?thesis
  proof cases
    case 1
    with init i show ?thesis by (simp add: defs)
  next
    case 2
    with phase i show ?thesis by (simp add: defs)
  next
    case 3
    with phase i show ?thesis by (simp add: defs)
  next
    case 4
    with phase i show ?thesis by (simp add: defs)
  next
    case 5
    with phase i ok show ?thesis by (auto simp: defs)
  next
    case 6
    with phase i ok show ?thesis by (auto simp: defs)
  next
    case 7
    with i show ?thesis by (simp add: defs)
  next
    case 8
    with i show ?thesis by (simp add: defs)
  qed
qed

lemma state_register_fields:
  "current_state_v (state_register False emergency sensors r) =
     next_state_v (current_state_v r) (state_timer r) emergency sensors"
  "next_state_v (current_state_v r) (state_timer r) emergency sensors = current_state_v r \<Longrightarrow>
   unat (state_timer (state_register False emergency sensors r)) = unat (state_timer r) - 1"
  by (auto simp: state_register_def Let_def unat_minus_one)

lemma in_phase_reads:
  assumes inv: "in_phase n t st r" and bound: "100 * Suc n < 2 ^ 32"
  shows "unat (t + CYCLE_MS - stateStartTime st) = unat (t - stateStartTime st) + 100"
    and "INIT_MS \<le> t + CYCLE_MS - stateStartTime st"
    and "cycles (current_state_v r) \<noteq> 0 \<Longrightarrow>
         (state_timer r = 0) =
         (dwell (state_of (current_state_v r)) \<le> t + CYCLE_MS - stateStartTime st)"
proof -
  define c where "c = current_state_v r"
  define E where "E = unat (t - stateStartTime st)"
  define e' where "e' = t + CYCLE_MS - stateStartTime st"
  from inv have En: "E \<le> 100 * n"
    and timed: "cycles c \<noteq> 0 \<Longrightarrow>
      100 dvd E \<and> unat (state_timer r) = unat (cycles c) - 1 - E div 100"
    by (auto simp: in_phase_def c_def E_def)
  have "e' = (t - stateStartTime st) + 100"
    by (simp add: e'_def CYCLE_MS_def)
  moreover from En bound have "unat (t - stateStartTime st) + unat (100 :: ulong) < 2 ^ LENGTH(32)"
    by (simp add: E_def)
  ultimately have ue: "unat e' = E + 100"
    by (simp add: E_def unat_add_lem [THEN iffD1])
  then show "unat (t + CYCLE_MS - stateStartTime st) = unat (t - stateStartTime st) + 100"
    by (simp add: e'_def E_def)
  show "INIT_MS \<le> t + CYCLE_MS - stateStartTime st"
    using ue by (simp add: word_le_nat_alt INIT_MS_def e'_def)
  show "(state_timer r = 0) =
         (dwell (state_of (current_state_v r)) \<le> t + CYCLE_MS - stateStartTime st)"
    if "cycles (current_state_v r) \<noteq> 0"
  proof -
    from that have c: "cycles c \<noteq> 0"
      by (simp add: c_def)
    from timed [OF c] obtain k where k: "E = 100 * k"
      and tm: "unat (state_timer r) = unat (cycles c) - 1 - k"
      by (auto elim: dvdE)
    from c have "unat (cycles c) \<noteq> 0"
      by (simp add: unat_eq_zero)
    with k tm have "(unat (state_timer r) = 0) = (100 * unat (cycles c) \<le> E + 100)"
      by auto
    then have "(state_timer r = 0) = (dwell (state_of c) \<le> e')"
      by (simp add: word_le_nat_alt ue dwell_in_cycles [OF c] unat_eq_zero)
    then show ?thesis
      by (simp add: c_def e'_def)
  qed
qed

lemma lockstep_step:
  assumes inv: "in_phase n t st r" and bound: "100 * Suc n < 2 ^ 32"
    and ok: "\<not> ungated reset emergency r"
  shows "in_phase (Suc n) (t + CYCLE_MS)
           (loop (sample reset emergency (ns_sensor_active_v sensors)
              (ew_sensor_active_v sensors)) (t + CYCLE_MS) st)
           (state_register reset emergency sensors r)"
proof (cases reset)
  case True
  then show ?thesis
    by (simp add: in_phase_def loop_def state_register_def sample_def state_of_def
        cycles_def state_v_defs StateType_defs)
next
  case False
  define inp where "inp = sample False emergency (ns_sensor_active_v sensors)
    (ew_sensor_active_v sensors)"
  define c where "c = current_state_v r"
  define E where "E = unat (t - stateStartTime st)"
  define e' where "e' = t + CYCLE_MS - stateStartTime st"
  define nxt where "nxt = next_state_v c (state_timer r) emergency sensors"
  let ?st = "loop inp (t + CYCLE_MS) st"
  let ?r = "state_register False emergency sensors r"
  have nr: "\<not> reset_active inp" and si: "same_inputs emergency sensors inp"
    by (simp_all add: inp_def sample_def same_inputs_def)
  from inv have cs: "current_state st = state_of c" and En: "E \<le> 100 * n"
    and timed: "cycles c \<noteq> 0 \<Longrightarrow>
      100 dvd E \<and> unat (state_timer r) = unat (cycles c) - 1 - E div 100"
    by (auto simp: in_phase_def c_def E_def)
  have ue: "unat e' = E + 100" and init: "INIT_MS \<le> e'"
    and phase: "cycles c \<noteq> 0 \<Longrightarrow> (state_timer r = 0) = (dwell (state_of c) \<le> e')"
    using in_phase_reads [OF inv bound] by (simp_all add: e'_def E_def c_def)
  from ok False have ok': "\<not> (state_timer r \<noteq> 0 \<and>
      (c = EMERGENCY_TRANS_v \<or> emergency \<and> c = EW_YELLOW_v))"
    by (simp add: ungated_def c_def)
  have agree: "state_of nxt = determine_next_state (state_of c) e' inp"
    unfolding nxt_def using si ok' phase init by (rule next_states_agree)
  have st_cs: "current_state ?st = state_of nxt"
    and st_start: "stateStartTime ?st = (if nxt = c then stateStartTime st else t + CYCLE_MS)"
    using nr cs agree [symmetric] by (simp_all add: loop_fields e'_def state_of_inject)
  have r_cs: "current_state_v ?r = nxt"
    by (simp add: state_register_fields nxt_def c_def)
  have "in_phase (Suc n) (t + CYCLE_MS) ?st ?r"
  proof (cases "nxt = c")
    case True
    then have stay: "next_state_v (current_state_v r) (state_timer r) emergency sensors =
        current_state_v r"
      by (simp add: nxt_def c_def)
    have tm': "unat (state_timer ?r) = unat (state_timer r) - 1"
      using stay by (rule state_register_fields(2))
    have "cycles c = 0 \<or>
       100 dvd (E + 100) \<and> unat (state_timer ?r) = unat (cycles c) - 1 - (E + 100) div 100"
    proof (cases "cycles c = 0")
      case True
      then show ?thesis by simp
    next
      case False
      from timed [OF False] tm' show ?thesis
        by auto
    qed
    with True En st_cs st_start r_cs ue show ?thesis
      by (simp add: in_phase_def e'_def)
  next
    case False
    have "unat (state_timer ?r) = unat (cycles nxt) - 1" if "cycles nxt \<noteq> 0"
    proof -
      from r_cs False have "state_timer ?r = cycles nxt - 1"
        by (intro timer_on_entry) (simp_all add: c_def that)
      with that show ?thesis
        by (simp add: unat_minus_one)
    qed
    with False st_cs st_start r_cs show ?thesis
      by (auto simp: in_phase_def)
  qed
  with False show ?thesis
    by (simp add: inp_def)
qed

lemma lockstep_runs_agree:
  assumes "in_phase n t st r" and "gated_alike edges r"
    and "100 * (n + length edges) < 2 ^ 32"
  shows "run (lockstep t edges) st = map state_of (run_v edges r)"
  using assms
proof (induction edges arbitrary: n t st r)
  case Nil
  then show ?case by simp
next
  case (Cons edge edges)
  obtain reset emergency sensors where edge: "edge = (reset, emergency, sensors)"
    by (cases edge)
  let ?st = "loop (sample reset emergency (ns_sensor_active_v sensors)
              (ew_sensor_active_v sensors)) (t + CYCLE_MS) st"
  let ?r = "state_register reset emergency sensors r"
  from Cons.prems edge have ok: "\<not> ungated reset emergency r" and rest: "gated_alike edges ?r"
    and b1: "100 * Suc n < 2 ^ 32" and b2: "100 * (Suc n + length edges) < 2 ^ 32"
    by simp_all
  have inv: "in_phase (Suc n) (t + CYCLE_MS) ?st ?r"
    using Cons.prems(1) b1 ok by (rule lockstep_step)
  then have "current_state ?st = state_of (current_state_v ?r)"
    by (simp add: in_phase_def)
  with Cons.IH [OF inv rest b2] edge show ?case
    by (simp add: Let_def)
qed

text \<open>
  C4, amended. With one iteration of the loop per clock edge and 100 ms between
  iterations, the C++ loop started by \<open>setup\<close> and the Verilog module started from
  reset go through the same sequence of states, for every sequence of reset,
  emergency and sensor inputs that spans less than \<open>2 ^ 32\<close> ms and is gated alike:
  no edge without reset finds the module with its timer not yet at zero in
  \<open>EMERGENCY_TRANS\<close> or, with the emergency input active, in \<open>EW_YELLOW\<close>.
\<close>

theorem drivers_agree_in_lockstep:
  assumes "gated_alike edges \<lparr>current_state_v = INIT_v, state_timer = 0\<rparr>"
    and "100 * length edges < 2 ^ 32"
  shows "run (lockstep t0 edges) (setup_board t0 ps) =
         map state_of (run_v edges \<lparr>current_state_v = INIT_v, state_timer = 0\<rparr>)"
proof -
  have "in_phase 0 t0 (setup_board t0 ps) \<lparr>current_state_v = INIT_v, state_timer = 0\<rparr>"
    by (simp add: in_phase_def setup_board_def state_of_def cycles_def state_v_defs
        StateType_defs)
  from this assms(1) show ?thesis
    by (rule lockstep_runs_agree) (use assms(2) in simp)
qed

theorem drivers_agree_in_lockstep_witness:
  "run (lockstep 0 [(False, False, 12), (False, True, 0), (True, False, 3)])
     (setup_board 0 power_on) =
   map state_of (run_v [(False, False, 12), (False, True, 0), (True, False, 3)]
     \<lparr>current_state_v = INIT_v, state_timer = 0\<rparr>)"
proof -
  have e1: "state_register False False 12 \<lparr>current_state_v = INIT_v, state_timer = 0\<rparr> =
      \<lparr>current_state_v = NS_GREEN_v, state_timer = 99\<rparr>"
    by (simp add: state_register_def next_state_v_def Let_def state_v_defs cycles_defs)
  have e2: "state_register False True 0 \<lparr>current_state_v = NS_GREEN_v, state_timer = 99\<rparr> =
      \<lparr>current_state_v = EMERGENCY_GREEN_v, state_timer = 1\<rparr>"
    by (simp add: state_register_def next_state_v_def Let_def state_v_defs cycles_defs)
  have g: "gated_alike [(False, False, 12), (False, True, 0), (True, False, 3)]
      \<lparr>current_state_v = INIT_v, state_timer = 0\<rparr>"
    by (simp add: ungated_def e1 [unfolded state_v_defs] e2 [unfolded state_v_defs]
        state_v_defs)
  have b: "100 * length [(False, False, 12 :: 4 word), (False, True, 0), (True, False, 3)]
      < (2 :: nat) ^ 32"
    by simp
  show ?thesis
    by (rule drivers_agree_in_lockstep [OF g b])
qed

text \<open>
  The exception is no wider than it must be: at every edge of the kind, reached in
  phase, the two controllers do part.
\<close>

lemma ungated_edge_parts:
  assumes inv: "in_phase n t st r" and bound: "100 * Suc n < 2 ^ 32"
    and un: "ungated reset emergency r"
  shows "current_state
           (loop (sample reset emergency (ns_sensor_active_v sensors)
              (ew_sensor_active_v sensors)) (t + CYCLE_MS) st) \<noteq>
         state_of (current_state_v (state_register reset emergency sensors r))"
proof -
  define inp where "inp = sample False emergency (ns_sensor_active_v sensors)
    (ew_sensor_active_v sensors)"
  define e' where "e' = t + CYCLE_MS - stateStartTime st"
  from un have nr: "\<not> reset" and tm: "state_timer r \<noteq> 0"
    and c: "current_state_v r = EMERGENCY_TRANS_v \<or>
      emergency \<and> current_state_v r = EW_YELLOW_v"
    by (simp_all add: ungated_def)
  from c have "cycles (current_state_v r) \<noteq> 0"
    by (auto simp: cycles_def state_v_defs cycles_defs)
  with in_phase_reads(3) [OF inv bound] tm
  have early: "\<not> dwell (state_of (current_state_v r)) \<le> e'"
    by (simp add: e'_def)
  from inv have cs: "current_state st = state_of (current_state_v r)"
    by (simp add: in_phase_def)
  have i: "\<not> reset_active inp" "emergency_active inp = emergency"
    by (simp_all add: inp_def sample_def)
  have "determine_next_state (state_of (current_state_v r)) e' inp \<noteq>
        state_of (next_state_v (current_state_v r) (state_timer r) emergency sensors)"
    using c tm early i(2)
    by (auto simp: determine_next_state_def next_state_v_def state_of_def dwell_def
        state_v_defs StateType_defs)
  with i(1) cs have "current_state (loop inp (t + CYCLE_MS) st) \<noteq>
        state_of (current_state_v (state_register False emergency sensors r))"
    by (simp add: loop_fields state_register_fields(1) e'_def)
  with nr show ?thesis
    by (simp add: inp_def)
qed

text \<open>
  Every run without emergency is gated alike, so on such runs the two controllers
  agree whatever the reset and sensor inputs are.
\<close>

lemma no_emergency_gated_alike:
  assumes "no_emergency edges" and "current_state_v r \<noteq> EMERGENCY_TRANS_v"
  shows "gated_alike edges r"
  using assms
proof (induction edges arbitrary: r)
  case Nil
  then show ?case by simp
next
  case (Cons edge edges)
  obtain reset emergency sensors where edge: "edge = (reset, emergency, sensors)"
    by (cases edge)
  with Cons.prems have ne: "\<not> emergency" "no_emergency edges"
    by simp_all
  from Cons.prems(2) ne(1)
  have "current_state_v (state_register reset emergency sensors r) \<noteq> EMERGENCY_TRANS_v"
    by (auto simp: state_register_def next_state_v_def Let_def state_v_defs split: if_splits)
  with Cons.IH [OF ne(2)] Cons.prems(2) ne(1) edge show ?case
    by (simp add: ungated_def)
qed

lemma drivers_agree_without_emergency:
  assumes "no_emergency edges" and "100 * length edges < 2 ^ 32"
  shows "run (lockstep t0 edges) (setup_board t0 ps) =
         map state_of (run_v edges \<lparr>current_state_v = INIT_v, state_timer = 0\<rparr>)"
proof -
  have "in_phase 0 t0 (setup_board t0 ps) \<lparr>current_state_v = INIT_v, state_timer = 0\<rparr>"
    by (simp add: in_phase_def setup_board_def state_of_def cycles_def state_v_defs
        StateType_defs)
  moreover have "gated_alike edges \<lparr>current_state_v = INIT_v, state_timer = 0\<rparr>"
    using assms(1) by (rule no_emergency_gated_alike) (simp add: state_v_defs)
  ultimately show ?thesis
    by (rule lockstep_runs_agree) (use assms(2) in simp)
qed

text \<open>
  The bound on the length of the run is where the 32-bit difference of \<open>millis()\<close>
  values wraps around: after 42949680 clock periods in \<open>NS_GREEN\<close> the loop reads
  an elapsed time of 704 ms and stays, while the timer of the module has long been
  at zero.
\<close>

lemma elapsed_wraps:
  "determine_next_state NS_GREEN (of_nat (100 * 42949680)) (sample False False False True) =
     NS_GREEN \<and>
   next_state_v NS_GREEN_v 0 False 12 = NS_YELLOW_v"
  by (simp add: determine_next_state_def next_state_v_def sample_def ew_sensor_active_v_def
      StateType_defs state_v_defs duration_defs)

section \<open>Reset\<close>

text \<open>
  C5. A tick with the reset input active ends in state \<open>INIT\<close> with the phase
  clock at 0, whatever the state, the time, and the emergency and demand inputs of
  that tick; the Verilog module, on reset, stores \<open>INIT\<close> and timer 0.
\<close>

theorem reset_dominance:
  assumes "reset_active inp"
  shows "current_state (loop inp now st) = INIT \<and>
         elapsed now (loop inp now st) = 0 \<and>
         current_state_v (state_register True emergency sensors r) = INIT_v \<and>
         state_timer (state_register True emergency sensors r) = 0"
  using assms by (simp add: loop_def elapsed_def state_register_def)

theorem reset_dominance_witness:
  "current_state (loop (sample True True True True) 12345 (in_state EW_GREEN 77)) = INIT \<and>
   elapsed 12345 (loop (sample True True True True) 12345 (in_state EW_GREEN 77)) = 0 \<and>
   current_state_v (state_register True True 15
     \<lparr>current_state_v = EW_GREEN_v, state_timer = 30\<rparr>) = INIT_v \<and>
   state_timer (state_register True True 15
     \<lparr>current_state_v = EW_GREEN_v, state_timer = 30\<rparr>) = 0"
proof -
  have "reset_active (sample True True True True)"
    by (simp add: sample_def)
  then show ?thesis
    by (rule reset_dominance)
qed

section \<open>Demand gating of the NS green\<close>

text \<open>
  C6. A tick taken in \<open>NS_GREEN\<close> without reset and without emergency: with no EW
  demand the state stays \<open>NS_GREEN\<close> whatever the elapsed time, and the state
  becomes \<open>NS_YELLOW\<close> exactly when the elapsed time is at least 10000 ms and there
  is EW demand.
\<close>

theorem ns_green_demand_gating:
  assumes "\<not> reset_active inp" and "\<not> emergency_active inp"
    and "current_state st = NS_GREEN"
  shows "(\<not> ew_sensor_active inp \<longrightarrow> current_state (loop inp now st) = NS_GREEN) \<and>
         (current_state (loop inp now st) = NS_YELLOW \<longleftrightarrow>
            10000 \<le> elapsed now st \<and> ew_sensor_active inp)"
  using assms
  by (simp add: loop_def elapsed_def Let_def determine_next_state_def StateType_defs
      duration_defs)

theorem ns_green_demand_gating_witness:
  "current_state (loop (sample False False True False) 4000000 (in_state NS_GREEN 0)) = NS_GREEN \<and>
   current_state (loop (sample False False False True) 10000 (in_state NS_GREEN 0)) = NS_YELLOW \<and>
   current_state (loop (sample False False False True) 9999 (in_state NS_GREEN 0)) \<noteq> NS_YELLOW"
  using ns_green_demand_gating [of "sample False False True False" "in_state NS_GREEN 0" 4000000]
    ns_green_demand_gating [of "sample False False False True" "in_state NS_GREEN 0" 10000]
    ns_green_demand_gating [of "sample False False False True" "in_state NS_GREEN 0" 9999]
  by (simp add: sample_def in_state_def elapsed_def)

section \<open>The emergency path from the EW green\<close>

lemma emergency_steps:
  assumes "emergency_active inp"
  shows "determine_next_state EMERGENCY_GREEN e inp = EMERGENCY_GREEN"
    and "determine_next_state EMERGENCY_TRANS e inp =
           (if EMERGENCY_WAIT_MS \<le> e then EMERGENCY_GREEN else EMERGENCY_TRANS)"
    and "determine_next_state EW_YELLOW e inp =
           (if YELLOW_MS \<le> e then EMERGENCY_TRANS else EW_YELLOW)"
    and "determine_next_state EW_GREEN e inp = EW_YELLOW"
  using assms by (simp_all add: determine_next_state_def StateType_defs)

text \<open>
  In the C++ loop, a run from \<open>EW_GREEN\<close> with the emergency input held visits
  \<open>EW_GREEN\<close>, \<open>EW_YELLOW\<close>, \<open>EMERGENCY_TRANS\<close> and \<open>EMERGENCY_GREEN\<close> in this
  order and no other state, as far as it gets; \<open>EW_YELLOW\<close> is left only at 2000 ms
  and \<open>EMERGENCY_TRANS\<close> only at 500 ms (see \<open>emergency_steps\<close>).
\<close>

lemma emergency_green_holds:
  assumes "emergency_held ticks" and "current_state st = EMERGENCY_GREEN"
  shows "remdups_adj (EMERGENCY_GREEN # run ticks st) = [EMERGENCY_GREEN]"
  using assms
proof (induction ticks arbitrary: st)
  case Nil
  then show ?case by simp
next
  case (Cons tick ticks)
  obtain inp now where tick: "tick = (inp, now)" by (cases tick)
  with Cons.prems have "current_state (loop inp now st) = EMERGENCY_GREEN"
    by (simp add: loop_no_reset emergency_steps)
  with Cons tick show ?case by (simp add: Let_def)
qed

lemma emergency_trans_path:
  assumes "emergency_held ticks" and "current_state st = EMERGENCY_TRANS"
  shows "remdups_adj (EMERGENCY_TRANS # run ticks st) = [EMERGENCY_TRANS] \<or>
         remdups_adj (EMERGENCY_TRANS # run ticks st) = [EMERGENCY_TRANS, EMERGENCY_GREEN]"
  using assms
proof (induction ticks arbitrary: st)
  case Nil
  then show ?case by simp
next
  case (Cons tick ticks)
  obtain inp now where tick: "tick = (inp, now)" by (cases tick)
  let ?st = "loop inp now st"
  from Cons.prems tick have held: "emergency_held ticks" by simp
  from Cons.prems tick
  have "current_state ?st = EMERGENCY_TRANS \<or> current_state ?st = EMERGENCY_GREEN"
    by (simp add: loop_no_reset emergency_steps)
  then consider "current_state ?st = EMERGENCY_TRANS" | "current_state ?st = EMERGENCY_GREEN"
    by blast
  then show ?case
  proof cases
    case 1
    with Cons.IH [OF held, of ?st] tick show ?thesis by (simp add: Let_def)
  next
    case 2
    with emergency_green_holds [OF held, of ?st] tick show ?thesis
      by (simp add: Let_def StateType_defs)
  qed
qed

lemma ew_yellow_path:
  assumes "emergency_held ticks" and "current_state st = EW_YELLOW"
  shows "remdups_adj (EW_YELLOW # run ticks st) = [EW_YELLOW] \<or>
         remdups_adj (EW_YELLOW # run ticks st) = [EW_YELLOW, EMERGENCY_TRANS] \<or>
         remdups_adj (EW_YELLOW # run ticks st) = [EW_YELLOW, EMERGENCY_TRANS, EMERGENCY_GREEN]"
  using assms
proof (induction ticks arbitrary: st)
  case Nil
  then show ?case by simp
next
  case (Cons tick ticks)
  obtain inp now where tick: "tick = (inp, now)" by (cases tick)
  let ?st = "loop inp now st"
  from Cons.prems tick have held: "emergency_held ticks" by simp
  from Cons.prems tick
  have "current_state ?st = EW_YELLOW \<or> current_state ?st = EMERGENCY_TRANS"
    by (simp add: loop_no_reset emergency_steps)
  then consider "current_state ?st = EW_YELLOW" | "current_state ?st = EMERGENCY_TRANS"
    by blast
  then show ?case
  proof cases
    case 1
    with Cons.IH [OF held, of ?st] tick show ?thesis by (simp add: Let_def)
  next
    case 2
    with emergency_trans_path [OF held, of ?st] tick show ?thesis
      by (auto simp: Let_def StateType_defs)
  qed
qed

lemma ew_green_emergency_path:
  assumes "emergency_held ticks" and "current_state st = EW_GREEN"
  shows "remdups_adj (EW_GREEN # run ticks st) = [EW_GREEN] \<or>
         remdups_adj (EW_GREEN # run ticks st) = [EW_GREEN, EW_YELLOW] \<or>
         remdups_adj (EW_GREEN # run ticks st) = [EW_GREEN, EW_YELLOW, EMERGENCY_TRANS] \<or>
         remdups_adj (EW_GREEN # run ticks st) =
           [EW_GREEN, EW_YELLOW, EMERGENCY_TRANS, EMERGENCY_GREEN]"
proof (cases ticks)
  case Nil
  then show ?thesis by simp
next
  case (Cons tick ticks')
  obtain inp now where tick: "tick = (inp, now)" by (cases tick)
  let ?st = "loop inp now st"
  from assms Cons tick have held: "emergency_held ticks'"
    and step: "current_state ?st = EW_YELLOW"
    by (simp_all add: loop_no_reset emergency_steps)
  with ew_yellow_path [OF held, of ?st] Cons tick show ?thesis
    by (auto simp: Let_def StateType_defs)
qed

lemma ew_green_emergency_run:
  "run [(sample False True False False, 0), (sample False True False False, 1999),
        (sample False True False False, 2000), (sample False True False False, 2499),
        (sample False True False False, 2500)] (in_state EW_GREEN 0) =
   [EW_YELLOW, EW_YELLOW, EMERGENCY_TRANS, EMERGENCY_TRANS, EMERGENCY_GREEN]"
proof -
  define i where "i = sample False True False False"
  have i: "emergency_active i" "\<not> reset_active i"
    by (simp_all add: i_def sample_def)
  note step = loop_fields [OF i(2)] emergency_steps [OF i(1), unfolded StateType_defs]
    StateType_defs duration_defs
  define st1 where "st1 = loop i 0 (in_state EW_GREEN 0)"
  define st2 where "st2 = loop i 1999 st1"
  define st3 where "st3 = loop i 2000 st2"
  define st4 where "st4 = loop i 2499 st3"
  define st5 where "st5 = loop i 2500 st4"
  have s1: "current_state st1 = EW_YELLOW" "stateStartTime st1 = 0"
    by (simp_all add: st1_def step in_state_def)
  have s2: "current_state st2 = EW_YELLOW" "stateStartTime st2 = 0"
    by (simp_all add: st2_def step s1)
  have s3: "current_state st3 = EMERGENCY_TRANS" "stateStartTime st3 = 2000"
    by (simp_all add: st3_def step s2)
  have s4: "current_state st4 = EMERGENCY_TRANS" "stateStartTime st4 = 2000"
    by (simp_all add: st4_def step s3)
  have s5: "current_state st5 = EMERGENCY_GREEN"
    by (simp add: st5_def step s4)
  have "run [(i, 0), (i, 1999), (i, 2000), (i, 2499), (i, 2500)] (in_state EW_GREEN 0) =
        [current_state st1, current_state st2, current_state st3, current_state st4,
         current_state st5]"
    by (simp add: Let_def st1_def st2_def st3_def st4_def st5_def)
  then show ?thesis
    by (simp only: s1 s2 s3 s4 s5 i_def)
qed

text \<open>
  C7. The Verilog module does not hold the two states of the path: from
  \<open>EW_GREEN\<close> with the emergency input held, three clock edges give \<open>EW_YELLOW\<close>,
  \<open>EMERGENCY_TRANS\<close> and \<open>EMERGENCY_GREEN\<close>, each of the first two for one cycle,
  while the yellow duration is 20 cycles and the emergency wait 5. The emergency
  branch of the module never reads the timer.
\<close>

theorem verilog_emergency_path_not_held:
  "run_v [(False, True, 0), (False, True, 0), (False, True, 0)]
     \<lparr>current_state_v = EW_GREEN_v, state_timer = 59\<rparr> =
     [EW_YELLOW_v, EMERGENCY_TRANS_v, EMERGENCY_GREEN_v] \<and>
   state_timer (state_register False True 0
     \<lparr>current_state_v = EW_GREEN_v, state_timer = 59\<rparr>) = 19 \<and>
   next_state_v EW_YELLOW_v 19 True 0 = EMERGENCY_TRANS_v \<and>
   next_state_v EMERGENCY_TRANS_v 4 True 0 = EMERGENCY_GREEN_v \<and>
   YELLOW_CYCLES = 20 \<and> EMERGENCY_WAIT = 5"
  by (simp add: state_register_def next_state_v_def Let_def state_v_defs cycles_defs)

section \<open>Leaving the emergency states\<close>

text \<open>
  C8. In the C++ loop, a tick without reset and without emergency taken in
  \<open>EMERGENCY_GREEN\<close> or in \<open>EMERGENCY_TRANS\<close> ends in \<open>NS_GREEN\<close>, for every
  elapsed time and every demand flag: no yellow state comes between.
\<close>

theorem emergency_resume:
  assumes "\<not> reset_active inp" and "\<not> emergency_active inp"
    and "current_state st = EMERGENCY_GREEN \<or> current_state st = EMERGENCY_TRANS"
  shows "current_state (loop inp now st) = NS_GREEN"
  using assms
  by (auto simp: loop_no_reset determine_next_state_def StateType_defs)

theorem emergency_resume_witness:
  "current_state (loop (sample False False True True) 3 (in_state EMERGENCY_GREEN 0)) = NS_GREEN \<and>
   current_state (loop (sample False False False False) 3 (in_state EMERGENCY_TRANS 0)) = NS_GREEN"
  using emergency_resume [of "sample False False True True" "in_state EMERGENCY_GREEN 0" 3]
    emergency_resume [of "sample False False False False" "in_state EMERGENCY_TRANS 0" 3]
  by (simp add: sample_def in_state_def)

text \<open>
  C9, as the claim states it, fails on the C++ loop: without emergency,
  \<open>EMERGENCY_TRANS\<close> is left for \<open>NS_GREEN\<close> at elapsed time 0, before its 500 ms.
\<close>

theorem emergency_trans_normal_counterexample:
  "(0 :: ulong) < EMERGENCY_WAIT_MS \<and>
   determine_next_state EMERGENCY_TRANS 0 (sample False False False False) = NS_GREEN \<and>
   NS_GREEN \<noteq> EMERGENCY_TRANS"
  by (simp add: determine_next_state_def sample_def StateType_defs duration_defs)

text \<open>
  C9, amended. Without reset and without emergency, a tick taken in
  \<open>EMERGENCY_TRANS\<close> moves to \<open>NS_GREEN\<close> for every elapsed time in the C++ loop;
  in the Verilog module it moves to \<open>NS_GREEN\<close> exactly when the timer has run out,
  and otherwise stays in \<open>EMERGENCY_TRANS\<close>.
\<close>

theorem emergency_trans_normal_branch:
  assumes "\<not> reset_active inp" and "\<not> emergency_active inp"
    and "current_state st = EMERGENCY_TRANS"
    and "current_state_v r = EMERGENCY_TRANS_v"
  shows "determine_next_state EMERGENCY_TRANS e inp = NS_GREEN \<and>
         current_state (loop inp now st) = NS_GREEN \<and>
         next_state_v EMERGENCY_TRANS_v timer False sensors =
           (if timer = 0 then NS_GREEN_v else EMERGENCY_TRANS_v) \<and>
         current_state_v (state_register False False sensors r) =
           (if state_timer r = 0 then NS_GREEN_v else EMERGENCY_TRANS_v)"
proof -
  have cpp: "determine_next_state EMERGENCY_TRANS e' inp = NS_GREEN" for e'
    using assms(2) by (simp add: determine_next_state_def StateType_defs)
  have v: "next_state_v EMERGENCY_TRANS_v t False sensors =
           (if t = 0 then NS_GREEN_v else EMERGENCY_TRANS_v)" for t
    by (simp add: next_state_v_def state_v_defs)
  have "current_state (loop inp now st) = NS_GREEN"
    using assms(1,3) cpp by (simp add: loop_no_reset)
  moreover have "current_state_v (state_register False False sensors r) =
           (if state_timer r = 0 then NS_GREEN_v else EMERGENCY_TRANS_v)"
    using assms(4) v [of "state_timer r"] by (simp add: state_register_def Let_def)
  ultimately show ?thesis
    using cpp v by simp
qed

theorem emergency_trans_normal_branch_witness:
  "determine_next_state EMERGENCY_TRANS 0 (sample False False True True) = NS_GREEN \<and>
   current_state (loop (sample False False True True) 0 (in_state EMERGENCY_TRANS 0)) =
     NS_GREEN \<and>
   next_state_v EMERGENCY_TRANS_v 4 False 0 = EMERGENCY_TRANS_v \<and>
   next_state_v EMERGENCY_TRANS_v 0 False 0 = NS_GREEN_v \<and>
   current_state_v (state_register False False 0
     \<lparr>current_state_v = EMERGENCY_TRANS_v, state_timer = 4\<rparr>) = EMERGENCY_TRANS_v"
  using emergency_trans_normal_branch [of "sample False False True True"
      "in_state EMERGENCY_TRANS 0" "\<lparr>current_state_v = EMERGENCY_TRANS_v, state_timer = 4\<rparr>"
      0 0 4 0]
    emergency_trans_normal_branch [of "sample False False True True"
      "in_state EMERGENCY_TRANS 0" "\<lparr>current_state_v = EMERGENCY_TRANS_v, state_timer = 4\<rparr>"
      0 0 0 0]
  by (simp add: sample_def in_state_def)

lemma emergency_trans_v_counts_down:
  assumes "t \<noteq> 0"
  shows "state_register False False sensors
           \<lparr>current_state_v = EMERGENCY_TRANS_v, state_timer = t\<rparr> =
         \<lparr>current_state_v = EMERGENCY_TRANS_v, state_timer = t - 1\<rparr>"
  using assms by (simp add: state_register_def next_state_v_def Let_def state_v_defs)

text \<open>
  In cycles: the module enters \<open>EMERGENCY_TRANS\<close> with its timer at 4; with the
  emergency input cleared from then on, it is in \<open>EMERGENCY_TRANS\<close> for five cycles
  and in \<open>NS_GREEN\<close> after the sixth edge.
\<close>

lemma emergency_trans_cleared_run_v:
  "run_v [(False, True, 0), (False, False, 0), (False, False, 0), (False, False, 0),
          (False, False, 0), (False, False, 0)]
     \<lparr>current_state_v = EW_YELLOW_v, state_timer = 19\<rparr> =
   [EMERGENCY_TRANS_v, EMERGENCY_TRANS_v, EMERGENCY_TRANS_v, EMERGENCY_TRANS_v,
    EMERGENCY_TRANS_v, NS_GREEN_v]"
proof -
  have enter: "state_register False True 0
      \<lparr>current_state_v = EW_YELLOW_v, state_timer = 19\<rparr> =
      \<lparr>current_state_v = EMERGENCY_TRANS_v, state_timer = 4\<rparr>"
    by (simp add: state_register_def next_state_v_def Let_def state_v_defs cycles_defs)
  have leave: "state_register False False 0
      \<lparr>current_state_v = EMERGENCY_TRANS_v, state_timer = 0\<rparr> =
      \<lparr>current_state_v = NS_GREEN_v, state_timer = 99\<rparr>"
    by (simp add: state_register_def next_state_v_def Let_def state_v_defs cycles_defs)
  show ?thesis
    by (simp add: enter leave emergency_trans_v_counts_down)
qed

section \<open>Emergency in the initial state and in unknown states\<close>

text \<open>
  C10. With the emergency input active and the reset input not, a tick taken in
  \<open>INIT\<close> or in a state that is no enumerator ends in \<open>EMERGENCY_GREEN\<close>, for every
  elapsed time and every demand flag, in the C++ loop and in the Verilog module.
\<close>

theorem emergency_from_init_or_unknown:
  assumes "emergency_active inp" and "\<not> reset_active inp"
    and "current_state st = INIT \<or> \<not> enumerator (current_state st)"
    and "current_state_v r = INIT_v \<or> \<not> enumerator_v (current_state_v r)"
  shows "determine_next_state (current_state st) e inp = EMERGENCY_GREEN \<and>
         current_state (loop inp now st) = EMERGENCY_GREEN \<and>
         next_state_v (current_state_v r) timer True sensors = EMERGENCY_GREEN_v \<and>
         current_state_v (state_register False True sensors r) = EMERGENCY_GREEN_v"
proof -
  have cpp: "determine_next_state (current_state st) e' inp = EMERGENCY_GREEN" for e'
    using assms(1,3) by (auto simp: determine_next_state_def enumerator_def StateType_defs)
  have v: "next_state_v (current_state_v r) t True sensors = EMERGENCY_GREEN_v" for t
    using assms(4) by (auto simp: next_state_v_def enumerator_v_def state_v_defs)
  have "current_state_v (state_register False True sensors r) = EMERGENCY_GREEN_v"
    using v [of "state_timer r"] by (simp add: state_register_def Let_def)
  with cpp v assms(2) show ?thesis
    by (simp add: loop_no_reset)
qed

theorem emergency_from_init_or_unknown_witness:
  "determine_next_state 9 0 (sample False True True False) = EMERGENCY_GREEN \<and>
   current_state (loop (sample False True True False) 5 (in_state 9 0)) = EMERGENCY_GREEN \<and>
   current_state (loop (sample False True True False) 5 (in_state INIT 0)) = EMERGENCY_GREEN \<and>
   next_state_v 7 3 True 0 = EMERGENCY_GREEN_v \<and>
   current_state_v (state_register False True 0
     \<lparr>current_state_v = 7, state_timer = 3\<rparr>) = EMERGENCY_GREEN_v \<and>
   current_state_v (state_register False True 0
     \<lparr>current_state_v = INIT_v, state_timer = 0\<rparr>) = EMERGENCY_GREEN_v"
  using emergency_from_init_or_unknown [of "sample False True True False" "in_state 9 0"
      "\<lparr>current_state_v = 7, state_timer = 3\<rparr>" 0 5 3 0]
    emergency_from_init_or_unknown [of "sample False True True False" "in_state INIT 0"
      "\<lparr>current_state_v = INIT_v, state_timer = 0\<rparr>" 0 5 0 0]
  by (simp add: sample_def in_state_def enumerator_iff enumerator_v_iff)

end
